theory Spec2Isabelle
  imports Main "HOL-Library.Multiset"
begin

section \<open>JavaScript values used by server.js\<close>

text \<open>
  The handlers of \<^verbatim>\<open>server.js\<close> compute with JavaScript numbers and strings. Every number
  that occurs is an integer-valued double, \<^verbatim>\<open>NaN\<close> or an infinity: \<^verbatim>\<open>parseInt(_, 10)\<close>,
  \<^verbatim>\<open>stat.size\<close>, \<^verbatim>\<open>Date.now()\<close> and sums and differences of those. A finite value is kept as
  the integer it denotes; \<open>to_double\<close> rounds an integer to the nearest double (53 bits of
  mantissa, ties to even, overflow to infinity), so that below \<open>2 ^ 53\<close> arithmetic is exact
  and above it behaves as the engine does. Strings are lists of 8-bit characters, which is
  what an HTTP header value is after Node has decoded it as latin1.
\<close>

datatype jsnum = NaN | Num int | PosInf | NegInf

function bitlen :: "int \<Rightarrow> nat" where
  "bitlen n = (if n \<le> 0 then 0 else Suc (bitlen (n div 2)))"
  by pat_completeness auto
termination
  by (relation "measure nat") auto

declare bitlen.simps [simp del]

definition to_double :: "int \<Rightarrow> jsnum" where
  "to_double n =
     (let a = \<bar>n\<bar> in
      if a < 2 ^ 53 then Num n
      else
        let e = bitlen a - 53;
            q = a div 2 ^ e;
            r = a mod 2 ^ e;
            q' = (if 2 ^ e < 2 * r \<or> (2 * r = 2 ^ e \<and> odd q) then q + 1 else q);
            m = q' * 2 ^ e
        in if 2 ^ 1024 \<le> m then (if n < 0 then NegInf else PosInf)
           else Num (if n < 0 then - m else m))"

fun js_neg :: "jsnum \<Rightarrow> jsnum" where
  "js_neg NaN = NaN"
| "js_neg (Num a) = Num (- a)"
| "js_neg PosInf = NegInf"
| "js_neg NegInf = PosInf"

text \<open>The operator \<^verbatim>\<open>+\<close> on two numbers.\<close>

fun js_add :: "jsnum \<Rightarrow> jsnum \<Rightarrow> jsnum" where
  "js_add NaN _ = NaN"
| "js_add _ NaN = NaN"
| "js_add (Num a) (Num b) = to_double (a + b)"
| "js_add PosInf NegInf = NaN"
| "js_add NegInf PosInf = NaN"
| "js_add PosInf _ = PosInf"
| "js_add _ PosInf = PosInf"
| "js_add NegInf _ = NegInf"
| "js_add _ NegInf = NegInf"

definition js_sub :: "jsnum \<Rightarrow> jsnum \<Rightarrow> jsnum" where
  "js_sub x y = js_add x (js_neg y)"

text \<open>The comparison \<^verbatim>\<open>x > y\<close>: false as soon as one side is \<^verbatim>\<open>NaN\<close>.\<close>

fun js_gt :: "jsnum \<Rightarrow> jsnum \<Rightarrow> bool" where
  "js_gt NaN _ = False"
| "js_gt _ NaN = False"
| "js_gt (Num a) (Num b) = (b < a)"
| "js_gt PosInf PosInf = False"
| "js_gt PosInf _ = True"
| "js_gt _ PosInf = False"
| "js_gt NegInf _ = False"
| "js_gt _ NegInf = True"

subsection \<open>Decimal digits\<close>

definition digit_char :: "int \<Rightarrow> char" where
  "digit_char d = ''0123456789'' ! nat d"

definition is_digit :: "char \<Rightarrow> bool" where
  "is_digit c = (48 \<le> (of_char c :: int) \<and> (of_char c :: int) \<le> 57)"

definition digit_val :: "char \<Rightarrow> int" where
  "digit_val c = of_char c - 48"

text \<open>The decimal digits of a number that is not negative.\<close>

function dec :: "int \<Rightarrow> string" where
  "dec n = (if n < 10 then [digit_char n] else dec (n div 10) @ [digit_char (n mod 10)])"
  by pat_completeness auto
termination
  by (relation "measure nat") auto

declare dec.simps [simp del]

text \<open>
  Conversion of a number to a string, as a template literal does it. For a finite value the
  digits are the exact decimal expansion, which is what the engine prints for every integer
  of magnitude below \<open>2 ^ 53\<close> (above that the engine prints the shortest digits that read
  back as the same double; the handlers only ever print such a value when a file is larger
  than \<open>2 ^ 53\<close> bytes).
\<close>

fun js_num_str :: "jsnum \<Rightarrow> string" where
  "js_num_str NaN = ''NaN''"
| "js_num_str PosInf = ''Infinity''"
| "js_num_str NegInf = ''-Infinity''"
| "js_num_str (Num n) = (if n < 0 then CHR ''-'' # dec (- n) else dec n)"

subsection \<open>\<^verbatim>\<open>parseInt(s, 10)\<close>\<close>

text \<open>
  Leading white space is skipped (the white-space code units below 256: tab, line feed,
  vertical tab, form feed, carriage return, space, no-break space), one sign is read, then
  the longest run of decimal digits; no digit gives \<^verbatim>\<open>NaN\<close>. The value is the double
  nearest to the digits' integer.
\<close>

definition is_ws :: "char \<Rightarrow> bool" where
  "is_ws c = ((of_char c :: int) \<in> {9, 10, 11, 12, 13, 32, 160})"

definition digits_val :: "string \<Rightarrow> int" where
  "digits_val ds = foldl (\<lambda>a c. 10 * a + digit_val c) 0 ds"

definition parseInt :: "string \<Rightarrow> jsnum" where
  "parseInt s =
     (let t = dropWhile is_ws s;
          neg = (t \<noteq> [] \<and> hd t = CHR ''-'');
          u = (if t \<noteq> [] \<and> (hd t = CHR ''-'' \<or> hd t = CHR ''+'') then tl t else t);
          ds = takeWhile is_digit u
      in if ds = [] then NaN
         else to_double (if neg then - digits_val ds else digits_val ds))"

subsection \<open>String operations\<close>

text \<open>
  \<^verbatim>\<open>s.replace(/bytes=/, "")\<close>: the regular expression has no \<^verbatim>\<open>g\<close> flag, so the first
  occurrence of the text, wherever it is, is removed and the rest is kept.
\<close>

fun remove_first :: "string \<Rightarrow> string \<Rightarrow> string" where
  "remove_first pat [] = []"
| "remove_first pat (c # cs) =
     (if take (length pat) (c # cs) = pat then drop (length pat) (c # cs)
      else c # remove_first pat cs)"

text \<open>\<^verbatim>\<open>s.split("-")\<close>: one more piece than there are separators, so never an empty array.\<close>

fun split_on :: "char \<Rightarrow> string \<Rightarrow> string list" where
  "split_on d [] = [[]]"
| "split_on d (c # cs) =
     (if c = d then [] # split_on d cs
      else (c # hd (split_on d cs)) # tl (split_on d cs))"

subsection \<open>Paths\<close>

text \<open>
  \<^verbatim>\<open>path.basename\<close> and \<^verbatim>\<open>path.extname\<close> of Node's POSIX flavour. Both scan the path from the
  right: trailing slashes are skipped and the scan stops at the next slash, so only the last
  component is looked at. The extension runs from the last dot of that component to its end;
  it is empty when the component has no dot, when the only dot is its first character, and
  when the component is \<^verbatim>\<open>..\<close>.
\<close>

definition last_component :: "string \<Rightarrow> string" where
  "last_component p =
     rev (takeWhile (\<lambda>c. c \<noteq> CHR ''/'') (dropWhile (\<lambda>c. c = CHR ''/'') (rev p)))"

definition basename :: "string \<Rightarrow> string" where
  "basename p = last_component p"

definition extname :: "string \<Rightarrow> string" where
  "extname p =
     (let b = last_component p;
          suffix = rev (takeWhile (\<lambda>c. c \<noteq> CHR ''.'') (rev b));
          stem = rev (drop (Suc (length suffix)) (rev b))
      in if CHR ''.'' \<notin> set b then []
         else if stem = [] then []
         else if b = ''..'' then []
         else CHR ''.'' # suffix)"

section \<open>The recording store\<close>

text \<open>
  One row of the table \<^verbatim>\<open>recordings\<close>. The column \<^verbatim>\<open>id\<close> is called \<open>rid\<close> here, the other
  columns keep their names.
\<close>

record recording =
  rid :: int
  filename :: string
  filepath :: string
  filesize :: int
  createdAt :: string

text \<open>
  The state the handlers work on: the table and its \<^verbatim>\<open>AUTOINCREMENT\<close> counter, the files
  on disk (path to content), and the faults of the environment. \<open>db_fails\<close> says which
  statements SQLite answers with an error; \<open>unlink_errno\<close> gives, for a path, the error code
  with which the operating system refuses to unlink it (\<^verbatim>\<open>EACCES\<close>, \<^verbatim>\<open>EPERM\<close>, \<^verbatim>\<open>EBUSY\<close>, ...),
  if it does. \<open>uploadDir\<close> is the constant of that name.
\<close>

datatype dbop = SelectAll | SelectById | Insert | Delete

record world =
  recordings :: "recording list"
  sqlite_sequence :: int
  files :: "string \<rightharpoonup> string"
  unlink_errno :: "string \<rightharpoonup> string"
  db_fails :: "dbop \<Rightarrow> bool"
  uploadDir :: string

subsection \<open>What a handler answers\<close>

text \<open>
  A handler either sends a response (status, the headers it set itself, body) or lets an
  exception escape from its callback. The bodies are the JSON objects of the source, the
  bytes piped from a read stream, and the page with which Express answers an error that a
  middleware passes on (status 500, here with the code of the error).
\<close>

datatype hval = HStr string | HNum jsnum

datatype payload =
    ErrorJson string
  | MessageJson string
  | RowsJson "recording list"
  | UploadedJson string recording
  | ErrorPage string
  | Bytes string

datatype js_exception = ERR_OUT_OF_RANGE string

datatype outcome =
    Response nat "(string \<times> hval) list" payload
  | Uncaught js_exception

text \<open>\<^verbatim>\<open>res.setHeader\<close> and the header object of \<^verbatim>\<open>res.writeHead\<close>: a later value replaces an
  earlier one of the same name.\<close>

fun setHeader :: "string \<Rightarrow> hval \<Rightarrow> (string \<times> hval) list \<Rightarrow> (string \<times> hval) list" where
  "setHeader k v [] = [(k, v)]"
| "setHeader k v ((k', v') # hs) =
     (if k = k' then (k, v) # hs else (k', v') # setHeader k v hs)"

subsection \<open>The database statements\<close>

text \<open>\<^verbatim>\<open>SELECT ... ORDER BY id DESC\<close>.\<close>

definition select_all :: "recording list \<Rightarrow> recording list" where
  "select_all rows = rev (sort_key rid rows)"

text \<open>\<^verbatim>\<open>SELECT * FROM recordings WHERE id = ?\<close> through \<^verbatim>\<open>db.get\<close>: the first row, if any. The
  parameter is the integer that SQLite compares with the column.\<close>

definition select_by_id :: "recording list \<Rightarrow> int \<Rightarrow> recording option" where
  "select_by_id rows i = find (\<lambda>r. rid r = i) rows"

definition delete_by_id :: "recording list \<Rightarrow> int \<Rightarrow> recording list" where
  "delete_by_id rows i = filter (\<lambda>r. rid r \<noteq> i) rows"

text \<open>An \<^verbatim>\<open>AUTOINCREMENT\<close> key is one more than the largest key the table ever held.\<close>

definition next_rowid :: "world \<Rightarrow> int" where
  "next_rowid w = fold max (map rid (recordings w)) (max 0 (sqlite_sequence w)) + 1"

subsection \<open>The file system calls\<close>

text \<open>\<^verbatim>\<open>fs.statSync(path).size\<close> of a file with the given content. Whether the file is there
  (\<^verbatim>\<open>fs.existsSync\<close>) is the case distinction on \<open>files w path\<close> in the handlers.\<close>

definition stat_size :: "string \<Rightarrow> jsnum" where
  "stat_size content = to_double (int (length content))"

text \<open>\<^verbatim>\<open>fs.unlink\<close>: the error code handed to the callback, if any, and the state afterwards.\<close>

definition unlink :: "world \<Rightarrow> string \<Rightarrow> string option \<times> world" where
  "unlink w p =
     (case unlink_errno w p of
        Some code \<Rightarrow> (Some code, w)
      | None \<Rightarrow>
          (if files w p = None then (Some ''ENOENT'', w)
           else (None, w\<lparr>files := (files w)(p := None)\<rparr>)))"

text \<open>
  \<^verbatim>\<open>fs.createReadStream(path, {start, end})\<close> checks its options in the constructor, before
  anything is read: \<^verbatim>\<open>start\<close> has to be an integer from 0 to \<open>2 ^ 53 - 1\<close>; \<^verbatim>\<open>end\<close>, unless it
  is \<^verbatim>\<open>Infinity\<close>, as well, and not below \<^verbatim>\<open>start\<close>. Otherwise the constructor throws
  \<^verbatim>\<open>ERR_OUT_OF_RANGE\<close>, naming the option.
\<close>

fun valid_position :: "jsnum \<Rightarrow> bool" where
  "valid_position (Num n) = (0 \<le> n \<and> n \<le> 2 ^ 53 - 1)"
| "valid_position _ = False"

definition createReadStream_check :: "jsnum \<Rightarrow> jsnum \<Rightarrow> js_exception option" where
  "createReadStream_check start end =
     (if \<not> valid_position start then Some (ERR_OUT_OF_RANGE ''start'')
      else if end = PosInf then None
      else if \<not> valid_position end then Some (ERR_OUT_OF_RANGE ''end'')
      else if js_gt start end then Some (ERR_OUT_OF_RANGE ''start'')
      else None)"

text \<open>The bytes such a stream delivers: from offset \<^verbatim>\<open>start\<close> up to and including offset
  \<^verbatim>\<open>end\<close>, or up to the end of the file when that comes first.\<close>

fun stream_bytes :: "string \<Rightarrow> jsnum \<Rightarrow> jsnum \<Rightarrow> string" where
  "stream_bytes content (Num s) (Num e) = take (nat (e - s + 1)) (drop (nat s) content)"
| "stream_bytes content (Num s) PosInf = drop (nat s) content"
| "stream_bytes content _ _ = []"

section \<open>The handlers\<close>

subsection \<open>\<^verbatim>\<open>GET /api/recordings\<close>\<close>

text \<open>\<^verbatim>\<open>{ ...r, filepath: path.basename(r.filepath) }\<close>\<close>

definition sanitize :: "recording \<Rightarrow> recording" where
  "sanitize r = r\<lparr>filepath := basename (filepath r)\<rparr>"

definition list_recordings :: "world \<Rightarrow> outcome \<times> world" where
  "list_recordings w =
     (if db_fails w SelectAll then (Response 500 [] (ErrorJson ''DB error''), w)
      else (Response 200 [] (RowsJson (map sanitize (select_all (recordings w)))), w))"

subsection \<open>\<^verbatim>\<open>POST /api/recordings\<close>\<close>

text \<open>
  The file part of the request, if it has one: the name of its form field, the file name the
  client gave and the bytes. And what the environment hands to one upload: the clock
  \<^verbatim>\<open>Date.now()\<close>, the text that \<^verbatim>\<open>Math.random().toString(36).slice(2)\<close> evaluates to (digits
  and lower-case letters, the base-36 digits after \<^verbatim>\<open>0.\<close>), SQLite's \<^verbatim>\<open>CURRENT_TIMESTAMP\<close> and
  \<^verbatim>\<open>new Date().toISOString()\<close>.
\<close>

record upload =
  fieldname :: string
  originalname :: string
  content :: string

record moment =
  date_now :: int
  random_token :: string
  current_timestamp :: string
  iso_string :: string

text \<open>The \<^verbatim>\<open>filename\<close> callback of \<^verbatim>\<open>multer.diskStorage\<close>: an empty extension is falsy and
  gives way to \<^verbatim>\<open>.webm\<close>.\<close>

definition ext :: "string \<Rightarrow> string" where
  "ext original = (if extname original \<noteq> [] then extname original else ''.webm'')"

definition storage_filename :: "int \<Rightarrow> string \<Rightarrow> string \<Rightarrow> string" where
  "storage_filename now token original =
     js_num_str (Num now) @ ''-'' @ token @ ext original"

text \<open>The characters of a number printed in base 36.\<close>

definition is_base36 :: "char \<Rightarrow> bool" where
  "is_base36 c = (is_digit c \<or> (97 \<le> (of_char c :: int) \<and> (of_char c :: int) \<le> 122))"

text \<open>
  The middleware \<^verbatim>\<open>upload.single("video")\<close> runs first. It skips a part that has no file
  name, so that \<^verbatim>\<open>req.file\<close> stays undefined; it refuses a file in another field than
  \<^verbatim>\<open>video\<close> with the error \<^verbatim>\<open>LIMIT_UNEXPECTED_FILE\<close>, which Express answers itself, and the
  handler does not run; otherwise it writes the part to \<^verbatim>\<open>uploadDir/filename\<close> (replacing a file
  of that name) and describes it in \<^verbatim>\<open>req.file\<close>. Then the handler runs. A write that fails
  ends the request inside multer and never reaches the handler; that path is not modelled.
\<close>

definition accepted :: "upload \<Rightarrow> bool" where
  "accepted f = (originalname f \<noteq> [] \<and> fieldname f = ''video'')"

definition post_recording :: "world \<Rightarrow> moment \<Rightarrow> upload option \<Rightarrow> outcome \<times> world" where
  "post_recording w m part =
     (case part of
        None \<Rightarrow> (Response 400 [] (ErrorJson ''No file uploaded''), w)
      | Some f \<Rightarrow>
          if originalname f = [] then (Response 400 [] (ErrorJson ''No file uploaded''), w)
          else if fieldname f \<noteq> ''video''
          then (Response 500 [] (ErrorPage ''LIMIT_UNEXPECTED_FILE''), w)
          else
          (let fname = storage_filename (date_now m) (random_token m) (originalname f);
               fpath = uploadDir w @ ''/'' @ fname;
               size = int (length (content f));
               w1 = w\<lparr>files := (files w)(fpath \<mapsto> content f)\<rparr>;
               shown = (if originalname f \<noteq> [] then originalname f else fname)
           in if db_fails w1 Insert
              then (Response 500 [] (ErrorJson ''Failed to save metadata''), w1)
              else
                (let lastID = next_rowid w1;
                     row = \<lparr>rid = lastID, filename = shown, filepath = fpath,
                            filesize = size, createdAt = current_timestamp m\<rparr>
                 in (Response 201 []
                       (UploadedJson ''Recording uploaded successfully''
                          \<lparr>rid = lastID, filename = shown, filepath = basename fpath,
                           filesize = size, createdAt = iso_string m\<rparr>),
                     w1\<lparr>recordings := recordings w1 @ [row], sqlite_sequence := lastID\<rparr>))))"

subsection \<open>\<^verbatim>\<open>GET /api/recordings/:id\<close>\<close>

text \<open>Lines 113 to 117: \<^verbatim>\<open>parts\<close>, \<^verbatim>\<open>start\<close>, \<^verbatim>\<open>end\<close> and \<^verbatim>\<open>chunkSize\<close>. An absent or empty
  \<^verbatim>\<open>parts[1]\<close> is falsy.\<close>

definition range_plan :: "string \<Rightarrow> jsnum \<Rightarrow> jsnum \<times> jsnum \<times> jsnum" where
  "range_plan rangeHeader fileSize =
     (let parts = split_on CHR ''-'' (remove_first ''bytes='' rangeHeader);
          start = parseInt (hd parts);
          end = (if 1 < length parts \<and> parts ! 1 \<noteq> [] then parseInt (parts ! 1)
                 else js_sub fileSize (Num 1));
          chunkSize = js_add (js_sub end start) (Num 1)
      in (start, end, chunkSize))"

text \<open>
  The header \<^verbatim>\<open>Range\<close> is absent (\<open>None\<close>) or a string; \<^verbatim>\<open>if (range)\<close> takes the empty string
  for absent. The stream is made before \<^verbatim>\<open>writeHead\<close>, so an exception of its constructor
  leaves the callback with no status line written.
\<close>

definition get_recording :: "world \<Rightarrow> int \<Rightarrow> string option \<Rightarrow> outcome \<times> world" where
  "get_recording w i rangeHeader =
     (if db_fails w SelectById then (Response 500 [] (ErrorJson ''DB error''), w)
      else case select_by_id (recordings w) i of
        None \<Rightarrow> (Response 404 [] (ErrorJson ''Recording not found''), w)
      | Some row \<Rightarrow>
          (case files w (filepath row) of
             None \<Rightarrow> (Response 404 [] (ErrorJson ''File missing on server''), w)
           | Some bytes \<Rightarrow>
               (let fileSize = stat_size bytes;
                    hs = setHeader ''Content-Type'' (HStr ''video/webm'') []
                in case rangeHeader of
                     Some r \<Rightarrow>
                       (if r \<noteq> [] then
                          (case range_plan r fileSize of
                             (start, end, chunkSize) \<Rightarrow>
                               (case createReadStream_check start end of
                                  Some ex \<Rightarrow> (Uncaught ex, w)
                                | None \<Rightarrow>
                                    (Response 206
                                       (setHeader ''Content-Type'' (HStr ''video/webm'')
                                         (setHeader ''Content-Length'' (HNum chunkSize)
                                           (setHeader ''Accept-Ranges'' (HStr ''bytes'')
                                             (setHeader ''Content-Range''
                                                (HStr (''bytes '' @ js_num_str start @ ''-''
                                                       @ js_num_str end @ ''/''
                                                       @ js_num_str fileSize)) hs))))
                                       (Bytes (stream_bytes bytes start end)), w)))
                        else
                          (Response 200
                             (setHeader ''Content-Type'' (HStr ''video/webm'')
                               (setHeader ''Content-Length'' (HNum fileSize) hs))
                             (Bytes bytes), w))
                   | None \<Rightarrow>
                       (Response 200
                          (setHeader ''Content-Type'' (HStr ''video/webm'')
                            (setHeader ''Content-Length'' (HNum fileSize) hs))
                          (Bytes bytes), w))))"

subsection \<open>\<^verbatim>\<open>DELETE /api/recordings/:id\<close>\<close>

definition delete_recording :: "world \<Rightarrow> int \<Rightarrow> outcome \<times> world" where
  "delete_recording w i =
     (if db_fails w SelectById then (Response 500 [] (ErrorJson ''DB error''), w)
      else case select_by_id (recordings w) i of
        None \<Rightarrow> (Response 404 [] (ErrorJson ''Recording not found''), w)
      | Some row \<Rightarrow>
          (case unlink w (filepath row) of
             (fsErr, w1) \<Rightarrow>
               (if fsErr \<noteq> None \<and> fsErr \<noteq> Some ''ENOENT''
                then (Response 500 [] (ErrorJson ''Failed to delete file''), w1)
                else if db_fails w1 Delete
                then (Response 500 [] (ErrorJson ''Failed to delete DB record''), w1)
                else (Response 200 [] (MessageJson ''Deleted''),
                      w1\<lparr>recordings := delete_by_id (recordings w1) i\<rparr>))))"

subsection \<open>Requests one after another\<close>

text \<open>
  The requests the server answers, and the state after a list of them, each handled on the
  state its predecessor left.
\<close>

datatype request =
    Post moment "upload option"
  | Get int "string option"
  | Del int
  | List

fun handle :: "world \<Rightarrow> request \<Rightarrow> outcome \<times> world" where
  "handle w (Post m part) = post_recording w m part"
| "handle w (Get i rangeHeader) = get_recording w i rangeHeader"
| "handle w (Del i) = delete_recording w i"
| "handle w List = list_recordings w"

fun run :: "world \<Rightarrow> request list \<Rightarrow> world" where
  "run w [] = w"
| "run w (r # rs) = run (snd (handle w r)) rs"

text \<open>
  A request leaves the recording with id \<open>k\<close> and storage key \<open>key\<close> alone when it neither
  deletes that id nor stores an upload under that key again.
\<close>

fun leaves_alone :: "string \<Rightarrow> int \<Rightarrow> request \<Rightarrow> bool" where
  "leaves_alone key k (Post m (Some f)) =
     (\<not> accepted f \<or> storage_filename (date_now m) (random_token m) (originalname f) \<noteq> key)"
| "leaves_alone key k (Del i) = (i \<noteq> k)"
| "leaves_alone key k _ = True"

text \<open>
  The recording with id \<open>k\<close> is intact in a state when its row is found and points to the
  path \<open>p\<close>, the file at \<open>p\<close> holds the given bytes, and no row with another id points to \<open>p\<close>.
\<close>

definition intact :: "world \<Rightarrow> int \<Rightarrow> string \<Rightarrow> string \<Rightarrow> bool" where
  "intact w k p bytes =
     ((case select_by_id (recordings w) k of None \<Rightarrow> False | Some row \<Rightarrow> filepath row = p)
      \<and> files w p = Some bytes
      \<and> (\<forall>r \<in> set (recordings w). filepath r = p \<longrightarrow> rid r = k))"

subsection \<open>Concrete states\<close>

text \<open>A store with one recording of ten bytes, as in the example scenario, and the same
  store after the blob was removed by hand.\<close>

definition no_faults :: "dbop \<Rightarrow> bool" where
  "no_faults op = False"

definition ten_row :: recording where
  "ten_row = \<lparr>rid = 1, filename = ''clip.webm'', filepath = ''/srv/uploads/17-k3.webm'',
              filesize = 10, createdAt = ''2024-01-01 00:00:00''\<rparr>"

definition ten_world :: world where
  "ten_world = \<lparr>recordings = [ten_row], sqlite_sequence = 1,
                files = [''/srv/uploads/17-k3.webm'' \<mapsto> ''0123456789''],
                unlink_errno = Map.empty, db_fails = no_faults,
                uploadDir = ''/srv/uploads''\<rparr>"

definition stale_world :: world where
  "stale_world = ten_world\<lparr>files := Map.empty\<rparr>"

definition locked_world :: world where
  "locked_world = ten_world\<lparr>unlink_errno := [''/srv/uploads/17-k3.webm'' \<mapsto> ''EACCES'']\<rparr>"

text \<open>A store with two recordings.\<close>

definition second_row :: recording where
  "second_row = \<lparr>rid = 2, filename = ''talk.webm'', filepath = ''/srv/uploads/18-z9.webm'',
                 filesize = 3, createdAt = ''2024-01-02 00:00:00''\<rparr>"

definition pair_world :: world where
  "pair_world = \<lparr>recordings = [ten_row, second_row], sqlite_sequence = 2,
                 files = [''/srv/uploads/17-k3.webm'' \<mapsto> ''0123456789'',
                          ''/srv/uploads/18-z9.webm'' \<mapsto> ''abc''],
                 unlink_errno = Map.empty, db_fails = no_faults,
                 uploadDir = ''/srv/uploads''\<rparr>"

text \<open>An empty store, and two uploads in the same millisecond for which the random token
  comes out the same.\<close>

definition empty_world :: world where
  "empty_world = \<lparr>recordings = [], sqlite_sequence = 0, files = Map.empty,
                  unlink_errno = Map.empty, db_fails = no_faults,
                  uploadDir = ''/srv/uploads''\<rparr>"

definition first_moment :: moment where
  "first_moment = \<lparr>date_now = 1700000000000, random_token = ''k3j9x2'',
                   current_timestamp = ''2023-11-14 22:13:20'',
                   iso_string = ''2023-11-14T22:13:20.000Z''\<rparr>"

definition second_moment :: moment where
  "second_moment = \<lparr>date_now = 1700000000000, random_token = ''k3j9x2'',
                    current_timestamp = ''2023-11-14 22:13:20'',
                    iso_string = ''2023-11-14T22:13:20.000Z''\<rparr>"

definition first_upload :: upload where
  "first_upload = \<lparr>fieldname = ''video'', originalname = ''intro.webm'', content = ''AAAA''\<rparr>"

definition second_upload :: upload where
  "second_upload = \<lparr>fieldname = ''video'', originalname = ''outro.webm'', content = ''BB''\<rparr>"

definition empty_upload :: upload where
  "empty_upload = \<lparr>fieldname = ''video'', originalname = ''silence.webm'', content = []\<rparr>"

text \<open>The store after the two uploads, and a later upload with another token.\<close>

definition collided_world :: world where
  "collided_world =
     run empty_world [Post first_moment (Some first_upload), Post second_moment (Some second_upload)]"

definition later_moment :: moment where
  "later_moment = \<lparr>date_now = 1700000000000, random_token = ''k3j9x3'',
                   current_timestamp = ''2023-11-14 22:13:20'',
                   iso_string = ''2023-11-14T22:13:20.000Z''\<rparr>"

section \<open>Facts about the JavaScript primitives\<close>

subsection \<open>Decimal digits and \<^verbatim>\<open>parseInt\<close>\<close>

lemma digit_char_props:
  assumes "0 \<le> d" "d < 10"
  shows "is_digit (digit_char d)" "digit_val (digit_char d) = d"
proof -
  have "d = 0 \<or> d = 1 \<or> d = 2 \<or> d = 3 \<or> d = 4 \<or> d = 5 \<or> d = 6 \<or> d = 7 \<or> d = 8 \<or> d = 9"
    using assms by arith
  then show "is_digit (digit_char d)" "digit_val (digit_char d) = d"
    by (auto simp: is_digit_def digit_val_def digit_char_def)
qed

lemma is_digit_not_special:
  assumes "is_digit c"
  shows "c \<noteq> CHR ''-''" "c \<noteq> CHR ''+''" "c \<noteq> CHR ''.''" "\<not> is_ws c"
  using assms by (auto simp: is_digit_def is_ws_def)

lemma dec_small: "n < 10 \<Longrightarrow> dec n = [digit_char n]"
  by (subst dec.simps) simp

lemma dec_big: "\<not> n < 10 \<Longrightarrow> dec n = dec (n div 10) @ [digit_char (n mod 10)]"
  by (subst dec.simps) simp

lemma dec_not_Nil: "dec n \<noteq> []"
  by (cases "n < 10") (simp_all add: dec_small dec_big)

lemma dec_digits: "0 \<le> n \<Longrightarrow> c \<in> set (dec n) \<Longrightarrow> is_digit c"
proof (induction n rule: dec.induct)
  case (1 n)
  show ?case
  proof (cases "n < 10")
    case True
    with "1.prems" show ?thesis
      by (simp add: dec_small digit_char_props)
  next
    case False
    with "1.prems" have "c \<in> set (dec (n div 10)) \<or> c = digit_char (n mod 10)"
      by (auto simp: dec_big)
    with "1.IH" False "1.prems"(1) show ?thesis
      by (auto simp: digit_char_props)
  qed
qed

lemma digits_val_snoc: "digits_val (ds @ [c]) = 10 * digits_val ds + digit_val c"
  by (simp add: digits_val_def)

lemma digits_val_dec: "0 \<le> n \<Longrightarrow> digits_val (dec n) = n"
proof (induction n rule: dec.induct)
  case (1 n)
  show ?case
  proof (cases "n < 10")
    case True
    with "1.prems" show ?thesis
      by (simp add: dec_small digits_val_def digit_char_props)
  next
    case False
    then have "digits_val (dec n) = 10 * digits_val (dec (n div 10)) + digit_val (digit_char (n mod 10))"
      by (simp add: dec_big digits_val_snoc)
    with "1.IH" False "1.prems" show ?thesis
      by (simp add: digit_char_props)
  qed
qed

lemma parseInt_digits:
  assumes "ds \<noteq> []" and "\<forall>c \<in> set ds. is_digit c"
  shows "parseInt ds = to_double (digits_val ds)"
proof -
  obtain c cs where d: "ds = c # cs" using assms(1) by (cases ds) auto
  have c: "is_digit c" using assms(2) d by simp
  have dw: "dropWhile is_ws ds = ds"
    using d c is_digit_not_special(4) by simp
  have tw: "takeWhile is_digit ds = ds"
    using assms(2) by simp
  have hd: "hd ds \<noteq> CHR ''-''" "hd ds \<noteq> CHR ''+''"
    using d c is_digit_not_special by auto
  show ?thesis
    unfolding parseInt_def Let_def dw using hd assms(1) by (simp add: tw)
qed

lemma parseInt_dec: "0 \<le> n \<Longrightarrow> parseInt (dec n) = to_double n"
  using parseInt_digits [of "dec n"] dec_digits [of n] dec_not_Nil [of n]
  by (simp add: digits_val_dec)

lemma parseInt_Nil: "parseInt [] = NaN"
  by (simp add: parseInt_def)

lemma to_double_safe: "\<bar>n\<bar> < 2 ^ 53 \<Longrightarrow> to_double n = Num n"
  by (simp add: to_double_def)

lemma split_on_absent: "d \<notin> set a \<Longrightarrow> split_on d a = [a]"
  by (induction a) auto

lemma split_on_first: "d \<notin> set a \<Longrightarrow> split_on d (a @ d # b) = a # split_on d b"
  by (induction a) auto

lemma remove_first_prefix: "pat \<noteq> [] \<Longrightarrow> remove_first pat (pat @ r) = r"
  by (cases pat) auto

lemma dash_notin_dec: "0 \<le> n \<Longrightarrow> CHR ''-'' \<notin> set (dec n)"
  using dec_digits is_digit_not_special(1) by blast


lemma bitlen_pow2: "bitlen (2 ^ k) = Suc k"
proof (induction k)
  case 0
  show ?case by (simp add: bitlen.simps [of 1] bitlen.simps [of 0])
next
  case (Suc k)
  have "bitlen (2 ^ Suc k) = Suc (bitlen (2 ^ Suc k div 2))"
    by (subst bitlen.simps) simp
  with Suc show ?case by simp
qed

lemma to_double_pow53: "to_double (2 ^ 53) = Num (2 ^ 53)"
proof -
  have b: "bitlen (2 ^ 53) - 53 = 1" using bitlen_pow2 [of 53] by simp
  have a: "\<bar>2 ^ 53 :: int\<bar> = 2 ^ 53" by simp
  show ?thesis
    unfolding to_double_def Let_def a b by simp
qed

lemma to_double_exact: "\<bar>n\<bar> \<le> 2 ^ 53 \<Longrightarrow> n \<noteq> - (2 ^ 53) \<Longrightarrow> to_double n = Num n"
  using to_double_pow53 to_double_safe [of n] by (cases "n = 2 ^ 53") auto

lemma range_plan_both:
  assumes "0 \<le> s" "0 \<le> e"
  shows "range_plan (''bytes='' @ dec s @ ''-'' @ dec e) fileSize =
           (to_double s, to_double e, js_add (js_sub (to_double e) (to_double s)) (Num 1))"
proof -
  have rf: "remove_first ''bytes='' (''bytes='' @ dec s @ ''-'' @ dec e) = dec s @ ''-'' @ dec e"
    by (rule remove_first_prefix) simp
  have sp: "split_on CHR ''-'' (dec s @ ''-'' @ dec e) = [dec s, dec e]"
    using split_on_first [of "CHR ''-''" "dec s" "dec e"] assms
    by (simp add: dash_notin_dec split_on_absent)
  show ?thesis
    unfolding range_plan_def rf sp Let_def using assms
    by (simp add: dec_not_Nil parseInt_dec)
qed

lemma range_plan_open:
  assumes "0 \<le> s"
  shows "range_plan (''bytes='' @ dec s @ ''-'') fileSize =
           (to_double s, js_sub fileSize (Num 1),
            js_add (js_sub (js_sub fileSize (Num 1)) (to_double s)) (Num 1))"
proof -
  have rf: "remove_first ''bytes='' (''bytes='' @ dec s @ ''-'') = dec s @ ''-''"
    by (rule remove_first_prefix) simp
  have sp: "split_on CHR ''-'' (dec s @ ''-'') = [dec s, []]"
    using split_on_first [of "CHR ''-''" "dec s" "[]"] assms
    by (simp add: dash_notin_dec)
  show ?thesis
    unfolding range_plan_def rf sp Let_def using assms
    by (simp add: parseInt_dec)
qed

lemma range_plan_suffix:
  "fst (range_plan (''bytes=-'' @ t) fileSize) = NaN"
proof -
  have rf: "remove_first ''bytes='' (''bytes=-'' @ t) = CHR ''-'' # t"
    using remove_first_prefix [of "''bytes=''" "CHR ''-'' # t"] by simp
  show ?thesis
    unfolding range_plan_def rf Let_def by (simp add: parseInt_Nil)
qed

lemma get_recording_partial:
  assumes "\<not> db_fails w SelectById"
    and "select_by_id (recordings w) i = Some row"
    and "files w (filepath row) = Some bytes"
    and "r \<noteq> []"
    and "range_plan r (stat_size bytes) = (start, end, chunkSize)"
    and "createReadStream_check start end = None"
  shows "get_recording w i (Some r) =
           (Response 206
              [(''Content-Type'', HStr ''video/webm''),
               (''Content-Range'',
                  HStr (''bytes '' @ js_num_str start @ ''-'' @ js_num_str end @ ''/''
                        @ js_num_str (stat_size bytes))),
               (''Accept-Ranges'', HStr ''bytes''),
               (''Content-Length'', HNum chunkSize)]
              (Bytes (stream_bytes bytes start end)), w)"
  using assms by (simp add: get_recording_def)

lemma get_recording_throws:
  assumes "\<not> db_fails w SelectById"
    and "select_by_id (recordings w) i = Some row"
    and "files w (filepath row) = Some bytes"
    and "r \<noteq> []"
    and "range_plan r (stat_size bytes) = (start, end, chunkSize)"
    and "createReadStream_check start end = Some ex"
  shows "get_recording w i (Some r) = (Uncaught ex, w)"
  using assms by (simp add: get_recording_def)

lemma get_recording_full:
  assumes "\<not> db_fails w SelectById"
    and "select_by_id (recordings w) i = Some row"
    and "files w (filepath row) = Some bytes"
  shows "get_recording w i None =
           (Response 200
              [(''Content-Type'', HStr ''video/webm''),
               (''Content-Length'', HNum (stat_size bytes))]
              (Bytes bytes), w)"
  using assms by (simp add: get_recording_def)

lemma slice_nth:
  assumes "m + n \<le> length xs"
  shows "take n (drop m xs) = map ((!) xs) [m..<m + n]"
  using assms by (intro nth_equalityI) auto

subsection \<open>The concrete states\<close>

lemma stat_size_exact: "int (length bytes) < 2 ^ 53 \<Longrightarrow> stat_size bytes = Num (int (length bytes))"
  by (simp add: stat_size_def to_double_safe)

lemma ten_world_row: "select_by_id (recordings ten_world) 1 = Some ten_row"
  by (simp add: ten_world_def ten_row_def select_by_id_def)

lemma ten_world_blob: "files ten_world (filepath ten_row) = Some ''0123456789''"
  by (simp add: ten_world_def ten_row_def)

lemma ten_world_db: "\<not> db_fails ten_world op"
  by (simp add: ten_world_def no_faults_def)

section \<open>The claims\<close>

text \<open>
  C1 (range law). Let a recording be stored with its row in the index and its content of
  \<open>totalLength\<close> bytes on disk, and let \<open>0 \<le> start \<le> end < totalLength\<close>. Retrieving it with
  the header \<^verbatim>\<open>Range: bytes=start-end\<close> answers 206 with a body of exactly \<open>end - start + 1\<close>
  bytes, the bytes at the offsets \<open>start\<close> to \<open>end\<close> of the content, with \<^verbatim>\<open>Content-Length\<close>
  \<open>end - start + 1\<close> and \<^verbatim>\<open>Content-Range: bytes start-end/totalLength\<close>. The size of the file
  is one that \<^verbatim>\<open>stat.size\<close> holds exactly (below \<open>2 ^ 53\<close> bytes).
\<close>

theorem range_law:
  assumes db: "\<not> db_fails w SelectById"
    and row: "select_by_id (recordings w) i = Some row"
    and blob: "files w (filepath row) = Some bytes"
    and size: "int (length bytes) < 2 ^ 53"
    and bounds: "0 \<le> start" "start \<le> end" "end < int (length bytes)"
  shows "get_recording w i (Some (''bytes='' @ dec start @ ''-'' @ dec end)) =
           (Response 206
              [(''Content-Type'', HStr ''video/webm''),
               (''Content-Range'',
                  HStr (''bytes '' @ dec start @ ''-'' @ dec end @ ''/''
                        @ dec (int (length bytes)))),
               (''Accept-Ranges'', HStr ''bytes''),
               (''Content-Length'', HNum (Num (end - start + 1)))]
              (Bytes (map ((!) bytes) [nat start..<nat end + 1])), w)
         \<and> int (length (map ((!) bytes) [nat start..<nat end + 1])) = end - start + 1"
proof -
  have st: "to_double start = Num start" and en: "to_double end = Num end"
    using size bounds by (simp_all add: to_double_safe)
  have ch: "js_add (js_sub (Num end) (Num start)) (Num 1) = Num (end - start + 1)"
    using size bounds by (simp add: js_sub_def to_double_safe)
  have plan: "range_plan (''bytes='' @ dec start @ ''-'' @ dec end) (stat_size bytes) =
                (Num start, Num end, Num (end - start + 1))"
    using range_plan_both [of start "end" "stat_size bytes"] bounds by (simp add: st en ch)
  have chk: "createReadStream_check (Num start) (Num end) = None"
    using size bounds by (simp add: createReadStream_check_def)
  have "nat start + nat (end - start + 1) \<le> length bytes"
    using bounds by linarith
  then have "take (nat (end - start + 1)) (drop (nat start) bytes) =
               map ((!) bytes) [nat start..<nat start + nat (end - start + 1)]"
    by (rule slice_nth)
  moreover have "nat start + nat (end - start + 1) = nat end + 1"
    using bounds by linarith
  ultimately have body: "stream_bytes bytes (Num start) (Num end) =
                           map ((!) bytes) [nat start..<nat end + 1]"
    by (simp del: upt_Suc)
  have "get_recording w i (Some (''bytes='' @ dec start @ ''-'' @ dec end)) =
          (Response 206
             [(''Content-Type'', HStr ''video/webm''),
              (''Content-Range'',
                 HStr (''bytes '' @ js_num_str (Num start) @ ''-'' @ js_num_str (Num end)
                       @ ''/'' @ js_num_str (stat_size bytes))),
              (''Accept-Ranges'', HStr ''bytes''),
              (''Content-Length'', HNum (Num (end - start + 1)))]
             (Bytes (stream_bytes bytes (Num start) (Num end))), w)"
    using db row blob plan chk by (intro get_recording_partial) simp_all
  then show ?thesis
    using bounds size by (simp add: body stat_size_exact del: stream_bytes.simps)
qed

theorem range_law_witness:
  "get_recording ten_world 1 (Some ''bytes=2-5'') =
     (Response 206
        [(''Content-Type'', HStr ''video/webm''),
         (''Content-Range'', HStr ''bytes 2-5/10''),
         (''Accept-Ranges'', HStr ''bytes''),
         (''Content-Length'', HNum (Num 4))]
        (Bytes ''2345''), ten_world)"
  using range_law [of ten_world 1 ten_row "''0123456789''" 2 5]
  by (simp add: ten_world_row ten_world_blob ten_world_db dec_small dec.simps [of 10] digit_char_def)

text \<open>
  C4 (omitted end). For a stored recording of \<open>totalLength\<close> bytes and \<open>0 \<le> N < totalLength\<close>,
  the header \<^verbatim>\<open>Range: bytes=N-\<close> resolves to \<open>start = N\<close> and \<open>end = totalLength - 1\<close>, and the
  answer is 206 with the bytes from offset \<open>N\<close> to the end of the file.
\<close>

theorem omitted_end:
  assumes db: "\<not> db_fails w SelectById"
    and row: "select_by_id (recordings w) i = Some row"
    and blob: "files w (filepath row) = Some bytes"
    and size: "int (length bytes) < 2 ^ 53"
    and bounds: "0 \<le> n" "n < int (length bytes)"
  shows "range_plan (''bytes='' @ dec n @ ''-'') (stat_size bytes) =
           (Num n, Num (int (length bytes) - 1), Num (int (length bytes) - n))
         \<and> get_recording w i (Some (''bytes='' @ dec n @ ''-'')) =
           (Response 206
              [(''Content-Type'', HStr ''video/webm''),
               (''Content-Range'',
                  HStr (''bytes '' @ dec n @ ''-'' @ dec (int (length bytes) - 1) @ ''/''
                        @ dec (int (length bytes)))),
               (''Accept-Ranges'', HStr ''bytes''),
               (''Content-Length'', HNum (Num (int (length bytes) - n)))]
              (Bytes (drop (nat n) bytes)), w)"
proof -
  let ?len = "int (length bytes)"
  have sz: "stat_size bytes = Num ?len"
    using size by (rule stat_size_exact)
  have st: "to_double n = Num n"
    using size bounds by (simp add: to_double_safe)
  have en: "js_sub (Num ?len) (Num 1) = Num (?len - 1)"
    using size by (simp add: js_sub_def to_double_safe)
  have ch: "js_add (js_sub (Num (?len - 1)) (Num n)) (Num 1) = Num (?len - n)"
    using size bounds by (simp add: js_sub_def to_double_safe)
  have plan: "range_plan (''bytes='' @ dec n @ ''-'') (stat_size bytes) =
                (Num n, Num (?len - 1), Num (?len - n))"
    using range_plan_open [of n "stat_size bytes"] bounds by (simp add: sz st en ch)
  have chk: "createReadStream_check (Num n) (Num (?len - 1)) = None"
    using size bounds by (auto simp: createReadStream_check_def)
  have body: "stream_bytes bytes (Num n) (Num (?len - 1)) = drop (nat n) bytes"
    using bounds by simp
  have "get_recording w i (Some (''bytes='' @ dec n @ ''-'')) =
          (Response 206
             [(''Content-Type'', HStr ''video/webm''),
              (''Content-Range'',
                 HStr (''bytes '' @ js_num_str (Num n) @ ''-'' @ js_num_str (Num (?len - 1))
                       @ ''/'' @ js_num_str (stat_size bytes))),
              (''Accept-Ranges'', HStr ''bytes''),
              (''Content-Length'', HNum (Num (?len - n)))]
             (Bytes (stream_bytes bytes (Num n) (Num (?len - 1)))), w)"
    using db row blob plan chk by (intro get_recording_partial) simp_all
  then have "get_recording w i (Some (''bytes='' @ dec n @ ''-'')) =
          (Response 206
             [(''Content-Type'', HStr ''video/webm''),
              (''Content-Range'',
                 HStr (''bytes '' @ dec n @ ''-'' @ dec (?len - 1) @ ''/'' @ dec ?len)),
              (''Accept-Ranges'', HStr ''bytes''),
              (''Content-Length'', HNum (Num (?len - n)))]
             (Bytes (drop (nat n) bytes)), w)"
    using bounds by (auto simp add: body sz simp del: stream_bytes.simps)
  with plan show ?thesis by blast
qed

theorem omitted_end_witness:
  "range_plan ''bytes=7-'' (stat_size ''0123456789'') = (Num 7, Num 9, Num 3)
   \<and> get_recording ten_world 1 (Some ''bytes=7-'') =
     (Response 206
        [(''Content-Type'', HStr ''video/webm''),
         (''Content-Range'', HStr ''bytes 7-9/10''),
         (''Accept-Ranges'', HStr ''bytes''),
         (''Content-Length'', HNum (Num 3))]
        (Bytes ''789''), ten_world)"
  using omitted_end [of ten_world 1 ten_row "''0123456789''" 7]
  by (simp add: ten_world_row ten_world_blob ten_world_db dec_small dec.simps [of 10] digit_char_def)

text \<open>
  C10 (suffix ranges). For a header \<^verbatim>\<open>Range: bytes=-N\<close> the text before the first \<^verbatim>\<open>-\<close> is empty,
  so \<^verbatim>\<open>start\<close> is \<^verbatim>\<open>NaN\<close>: the last \<open>N\<close> bytes are not served and no 416 is sent. No response
  is sent at all, since the stream constructor rejects the offset and its exception leaves
  the callback.
\<close>

theorem suffix_range_not_served:
  assumes db: "\<not> db_fails w SelectById"
    and row: "select_by_id (recordings w) i = Some row"
    and blob: "files w (filepath row) = Some bytes"
  shows "fst (range_plan (''bytes=-'' @ n) (stat_size bytes)) = NaN
         \<and> get_recording w i (Some (''bytes=-'' @ n)) = (Uncaught (ERR_OUT_OF_RANGE ''start''), w)
         \<and> (\<forall>status hs body. fst (get_recording w i (Some (''bytes=-'' @ n))) \<noteq> Response status hs body)"
proof -
  obtain start "end" chunkSize
    where plan: "range_plan (''bytes=-'' @ n) (stat_size bytes) = (start, end, chunkSize)"
    by (cases "range_plan (''bytes=-'' @ n) (stat_size bytes)") auto
  have nan: "start = NaN"
    using range_plan_suffix [of n "stat_size bytes"] plan by simp
  have chk: "createReadStream_check start end = Some (ERR_OUT_OF_RANGE ''start'')"
    by (simp add: nan createReadStream_check_def)
  have "get_recording w i (Some (''bytes=-'' @ n)) = (Uncaught (ERR_OUT_OF_RANGE ''start''), w)"
    using db row blob plan chk by (intro get_recording_throws) simp_all
  with range_plan_suffix [of n "stat_size bytes"] show ?thesis by simp
qed

theorem suffix_range_not_served_witness:
  "fst (range_plan ''bytes=-3'' (stat_size ''0123456789'')) = NaN
   \<and> get_recording ten_world 1 (Some ''bytes=-3'') = (Uncaught (ERR_OUT_OF_RANGE ''start''), ten_world)"
  using suffix_range_not_served [of ten_world 1 ten_row "''0123456789''" "''3''"]
  by (simp add: ten_world_row ten_world_blob ten_world_db)

lemma stale_world_row: "select_by_id (recordings stale_world) 1 = Some ten_row"
  by (simp add: stale_world_def ten_world_def ten_row_def select_by_id_def)

lemma stale_world_db: "\<not> db_fails stale_world op"
  by (simp add: stale_world_def ten_world_def no_faults_def)

text \<open>
  C8 (stale row). When the row of a recording exists and its blob is not on disk, retrieving
  it answers 404 \<^verbatim>\<open>File missing on server\<close>, whatever the \<^verbatim>\<open>Range\<close> header, and the index is
  as before: the stale row is neither deleted nor changed.
\<close>

theorem stale_row_kept:
  assumes db: "\<not> db_fails w SelectById"
    and row: "select_by_id (recordings w) i = Some row"
    and blob: "files w (filepath row) = None"
  shows "get_recording w i rangeHeader = (Response 404 [] (ErrorJson ''File missing on server''), w)
         \<and> recordings (snd (get_recording w i rangeHeader)) = recordings w"
  using assms by (simp add: get_recording_def)

theorem stale_row_kept_witness:
  "get_recording stale_world 1 None = (Response 404 [] (ErrorJson ''File missing on server''), stale_world)
   \<and> recordings (snd (get_recording stale_world 1 None)) = [ten_row]"
  using stale_row_kept [of stale_world 1 ten_row None]
  by (simp add: stale_world_row stale_world_db) (simp add: stale_world_def ten_world_def)

subsection \<open>No status 416\<close>

lemma get_recording_never_416:
  "fst (get_recording w i h) = Response status hs body \<Longrightarrow> status \<noteq> 416"
  by (auto simp: get_recording_def Let_def split: if_splits option.splits prod.splits)

text \<open>
  C2 (no bounds validation). The claim says that every header \<^verbatim>\<open>bytes=start-end\<close> with integer
  \<open>start\<close> and \<open>end\<close> is answered 206, also when \<open>start > end\<close>. On the ten-byte recording the
  header \<^verbatim>\<open>bytes=5-2\<close> is not answered at all: \<^verbatim>\<open>fs.createReadStream\<close> is called before
  \<^verbatim>\<open>res.writeHead\<close> and rejects a \<^verbatim>\<open>start\<close> above \<^verbatim>\<open>end\<close>.
\<close>

theorem inverted_range_counterexample:
  "get_recording ten_world 1 (Some ''bytes=5-2'') =
     (Uncaught (ERR_OUT_OF_RANGE ''start''), ten_world)"
proof -
  have rf: "remove_first ''bytes='' ''bytes=5-2'' = ''5-2''"
    by simp
  have plan: "range_plan ''bytes=5-2'' (stat_size ''0123456789'') = (Num 5, Num 2, Num (- 2))"
    using range_plan_both [of 5 2 "stat_size ''0123456789''"]
    by (simp add: dec_small digit_char_def to_double_safe js_sub_def)
  have chk: "createReadStream_check (Num 5) (Num 2) = Some (ERR_OUT_OF_RANGE ''start'')"
    by (simp add: createReadStream_check_def)
  show ?thesis
    using ten_world_db ten_world_row ten_world_blob _ plan chk
    by (rule get_recording_throws) simp
qed

text \<open>
  C2, as amended. The handler itself validates nothing: for every header \<^verbatim>\<open>bytes=start-end\<close>
  whose \<open>start\<close> and \<open>end\<close> are integers from 0 to \<open>2 ^ 53 - 1\<close> it computes exactly \<open>start\<close>,
  \<open>end\<close> and the chunk size \<open>end - start + 1\<close>, in whatever order they are and whatever the
  length of the file. When \<open>start \<le> end\<close> the answer is 206 with these values, also for
  \<open>start\<close> at or beyond the length of the file, where the body is shorter than the announced
  \<^verbatim>\<open>Content-Length\<close>. No request is ever answered with status 416.
\<close>

theorem range_not_validated:
  assumes db: "\<not> db_fails w SelectById"
    and row: "select_by_id (recordings w) i = Some row"
    and blob: "files w (filepath row) = Some bytes"
    and size: "int (length bytes) < 2 ^ 53"
    and safe: "0 \<le> start" "start < 2 ^ 53" "0 \<le> end" "end < 2 ^ 53"
  shows "range_plan (''bytes='' @ dec start @ ''-'' @ dec end) (stat_size bytes) =
           (Num start, Num end, Num (end - start + 1))
         \<and> (start \<le> end \<longrightarrow>
              get_recording w i (Some (''bytes='' @ dec start @ ''-'' @ dec end)) =
                (Response 206
                   [(''Content-Type'', HStr ''video/webm''),
                    (''Content-Range'',
                       HStr (''bytes '' @ dec start @ ''-'' @ dec end @ ''/''
                             @ dec (int (length bytes)))),
                    (''Accept-Ranges'', HStr ''bytes''),
                    (''Content-Length'', HNum (Num (end - start + 1)))]
                   (Bytes (take (nat (end - start + 1)) (drop (nat start) bytes))), w))
         \<and> (\<forall>h status hs body.
                fst (get_recording w i h) = Response status hs body \<longrightarrow> status \<noteq> 416)"
proof -
  have st: "to_double start = Num start" and en: "to_double end = Num end"
    using safe by (simp_all add: to_double_safe)
  have "js_sub (Num end) (Num start) = Num (end - start)"
    using safe by (simp add: js_sub_def to_double_safe)
  moreover have "to_double (end - start + 1) = Num (end - start + 1)"
    using safe by (intro to_double_exact) simp_all
  ultimately have ch: "js_add (js_sub (Num end) (Num start)) (Num 1) = Num (end - start + 1)"
    by simp
  have plan: "range_plan (''bytes='' @ dec start @ ''-'' @ dec end) (stat_size bytes) =
                (Num start, Num end, Num (end - start + 1))"
    using range_plan_both [of start "end" "stat_size bytes"] safe by (simp add: st en ch)
  have served: "get_recording w i (Some (''bytes='' @ dec start @ ''-'' @ dec end)) =
                (Response 206
                   [(''Content-Type'', HStr ''video/webm''),
                    (''Content-Range'',
                       HStr (''bytes '' @ dec start @ ''-'' @ dec end @ ''/''
                             @ dec (int (length bytes)))),
                    (''Accept-Ranges'', HStr ''bytes''),
                    (''Content-Length'', HNum (Num (end - start + 1)))]
                   (Bytes (take (nat (end - start + 1)) (drop (nat start) bytes))), w)"
    if le: "start \<le> end"
  proof -
    have chk: "createReadStream_check (Num start) (Num end) = None"
      using safe le by (simp add: createReadStream_check_def)
    have "get_recording w i (Some (''bytes='' @ dec start @ ''-'' @ dec end)) =
            (Response 206
               [(''Content-Type'', HStr ''video/webm''),
                (''Content-Range'',
                   HStr (''bytes '' @ js_num_str (Num start) @ ''-'' @ js_num_str (Num end)
                         @ ''/'' @ js_num_str (stat_size bytes))),
                (''Accept-Ranges'', HStr ''bytes''),
                (''Content-Length'', HNum (Num (end - start + 1)))]
               (Bytes (stream_bytes bytes (Num start) (Num end))), w)"
      using db row blob plan chk by (intro get_recording_partial) simp_all
    then show ?thesis
      using safe size by (simp add: stat_size_exact)
  qed
  from plan served get_recording_never_416 show ?thesis
    by blast
qed

theorem range_not_validated_witness:
  "range_plan ''bytes=5-2'' (stat_size ''0123456789'') = (Num 5, Num 2, Num (- 2))
   \<and> range_plan ''bytes=12-15'' (stat_size ''0123456789'') = (Num 12, Num 15, Num 4)
   \<and> get_recording ten_world 1 (Some ''bytes=12-15'') =
       (Response 206
          [(''Content-Type'', HStr ''video/webm''),
           (''Content-Range'', HStr ''bytes 12-15/10''),
           (''Accept-Ranges'', HStr ''bytes''),
           (''Content-Length'', HNum (Num 4))]
          (Bytes []), ten_world)"
  using range_not_validated [of ten_world 1 ten_row "''0123456789''" 5 2]
        range_not_validated [of ten_world 1 ten_row "''0123456789''" 12 15]
  by (simp add: ten_world_row ten_world_blob ten_world_db dec_small dec.simps [of 10]
        dec.simps [of 12] dec.simps [of 15] digit_char_def)

subsection \<open>Facts about the index and the file system\<close>

lemma select_by_id_deleted: "select_by_id (delete_by_id rows i) i = None"
  by (induction rows) (auto simp: select_by_id_def delete_by_id_def)

lemma select_by_id_delete_other:
  "j \<noteq> i \<Longrightarrow> select_by_id (delete_by_id rows i) j = select_by_id rows j"
  by (induction rows) (auto simp: select_by_id_def delete_by_id_def)

lemma locked_world_row: "select_by_id (recordings locked_world) 1 = Some ten_row"
  by (simp add: locked_world_def ten_world_def ten_row_def select_by_id_def)

lemma locked_world_db: "\<not> db_fails locked_world op"
  by (simp add: locked_world_def ten_world_def no_faults_def)

lemma locked_world_errno: "unlink_errno locked_world (filepath ten_row) = Some ''EACCES''"
  by (simp add: locked_world_def ten_world_def ten_row_def)

lemma unlink_failed: "fst (unlink w p) = Some code \<Longrightarrow> unlink w p = (Some code, w)"
  by (auto simp: unlink_def split: option.splits if_splits)

text \<open>
  C6 (failed blob removal). When the row of a recording exists and \<^verbatim>\<open>fs.unlink\<close> fails with an
  error code other than \<^verbatim>\<open>ENOENT\<close>, deleting the recording answers 500
  \<^verbatim>\<open>Failed to delete file\<close> and the index is as before, the row still there, so that the
  request can be repeated.
\<close>

theorem delete_blob_failure_keeps_row:
  assumes db: "\<not> db_fails w SelectById"
    and row: "select_by_id (recordings w) i = Some row"
    and refused: "fst (unlink w (filepath row)) = Some code"
    and code: "code \<noteq> ''ENOENT''"
  shows "delete_recording w i = (Response 500 [] (ErrorJson ''Failed to delete file''), w)
         \<and> recordings (snd (delete_recording w i)) = recordings w
         \<and> select_by_id (recordings (snd (delete_recording w i))) i = Some row"
proof -
  have "unlink w (filepath row) = (Some code, w)"
    using refused by (rule unlink_failed)
  then have "delete_recording w i = (Response 500 [] (ErrorJson ''Failed to delete file''), w)"
    using db row code by (simp add: delete_recording_def)
  then show ?thesis
    using row by simp
qed

theorem delete_blob_failure_keeps_row_witness:
  "fst (unlink locked_world (filepath ten_row)) = Some ''EACCES''
   \<and> delete_recording locked_world 1 =
       (Response 500 [] (ErrorJson ''Failed to delete file''), locked_world)
   \<and> recordings (snd (delete_recording locked_world 1)) = [ten_row]"
proof -
  have u: "fst (unlink locked_world (filepath ten_row)) = Some ''EACCES''"
    by (simp add: unlink_def locked_world_errno)
  have r: "recordings locked_world = [ten_row]"
    by (simp add: locked_world_def ten_world_def)
  show ?thesis
    using delete_blob_failure_keeps_row [OF locked_world_db locked_world_row u] u r
    by simp
qed

text \<open>
  C7 (blob already absent). When the row of a recording exists, its blob is not on disk and
  the index statements succeed, \<^verbatim>\<open>fs.unlink\<close> reports \<^verbatim>\<open>ENOENT\<close>, which the handler takes for
  success: the row is removed and the answer is 200 with the message \<^verbatim>\<open>Deleted\<close>.
\<close>

theorem delete_missing_blob_succeeds:
  assumes db: "\<not> db_fails w SelectById" "\<not> db_fails w Delete"
    and row: "select_by_id (recordings w) i = Some row"
    and absent: "files w (filepath row) = None"
    and no_fault: "unlink_errno w (filepath row) = None"
  shows "fst (unlink w (filepath row)) = Some ''ENOENT''
         \<and> delete_recording w i =
             (Response 200 [] (MessageJson ''Deleted''),
              w\<lparr>recordings := delete_by_id (recordings w) i\<rparr>)
         \<and> select_by_id (recordings (snd (delete_recording w i))) i = None"
proof -
  have u: "unlink w (filepath row) = (Some ''ENOENT'', w)"
    using absent no_fault by (simp add: unlink_def)
  then have "delete_recording w i =
               (Response 200 [] (MessageJson ''Deleted''),
                w\<lparr>recordings := delete_by_id (recordings w) i\<rparr>)"
    using db row by (simp add: delete_recording_def)
  then show ?thesis
    using u by (simp add: select_by_id_deleted)
qed

theorem delete_missing_blob_succeeds_witness:
  "delete_recording stale_world 1 =
     (Response 200 [] (MessageJson ''Deleted''), stale_world\<lparr>recordings := []\<rparr>)"
  using delete_missing_blob_succeeds [of stale_world 1 ten_row]
  by (simp add: stale_world_row stale_world_db)
     (simp add: stale_world_def ten_world_def ten_row_def delete_by_id_def)

lemma fold_max_ge_init: "(a::int) \<le> fold max xs a"
  by (induction xs arbitrary: a) (auto intro: order_trans [OF max.cobounded2])

lemma fold_max_ge_elem: "x \<in> set xs \<Longrightarrow> (x::int) \<le> fold max xs a"
proof (induction xs arbitrary: a)
  case Nil
  then show ?case by simp
next
  case (Cons y ys)
  show ?case
  proof (cases "x = y")
    case True
    have "max y a \<le> fold max ys (max y a)" by (rule fold_max_ge_init)
    with True show ?thesis by simp
  next
    case False
    with Cons show ?thesis by simp
  qed
qed

lemma next_rowid_fresh: "r \<in> set (recordings w) \<Longrightarrow> rid r < next_rowid w"
  using fold_max_ge_elem [of "rid r" "map rid (recordings w)" "max 0 (sqlite_sequence w)"]
  by (simp add: next_rowid_def)

lemma select_by_id_appended:
  "\<forall>r \<in> set rows. rid r \<noteq> rid new \<Longrightarrow> select_by_id (rows @ [new]) (rid new) = Some new"
  by (induction rows) (auto simp: select_by_id_def)

lemma empty_world_db: "\<not> db_fails empty_world op"
  by (simp add: empty_world_def no_faults_def)

subsection \<open>What requests leave alone\<close>

lemma select_by_id_rid: "select_by_id rows i = Some row \<Longrightarrow> rid row = i \<and> row \<in> set rows"
  by (induction rows) (auto simp: select_by_id_def split: if_splits)

lemma select_by_id_append_found:
  "select_by_id rows k = Some row \<Longrightarrow> select_by_id (rows @ ys) k = Some row"
  by (induction rows) (auto simp: select_by_id_def)

lemma get_recording_state: "snd (get_recording w i h) = w"
  by (auto simp: get_recording_def Let_def split: option.splits prod.splits)

lemma list_recordings_state: "snd (list_recordings w) = w"
  by (simp add: list_recordings_def)

lemma handle_environment:
  "db_fails (snd (handle w r)) = db_fails w \<and> uploadDir (snd (handle w r)) = uploadDir w"
proof (cases r)
  case (Post m part)
  then show ?thesis
    by (auto simp: post_recording_def Let_def split: option.splits)
next
  case (Get i h)
  then show ?thesis by (simp add: get_recording_state)
next
  case (Del i)
  then show ?thesis
    by (auto simp: delete_recording_def unlink_def split: option.splits prod.splits if_splits)
next
  case List
  then show ?thesis by (simp add: list_recordings_state)
qed

lemma run_environment:
  "db_fails (run w rs) = db_fails w \<and> uploadDir (run w rs) = uploadDir w"
  by (induction rs arbitrary: w) (simp_all add: handle_environment)

lemma intact_post:
  assumes i: "intact w k p bytes"
    and p: "p = uploadDir w @ ''/'' @ key"
    and l: "leaves_alone key k (Post m part)"
  shows "intact (snd (post_recording w m part)) k p bytes"
proof (cases part)
  case None
  with i show ?thesis by (simp add: post_recording_def)
next
  case (Some f)
  show ?thesis
  proof (cases "accepted f")
    case False
    with i Some show ?thesis
      by (auto simp: post_recording_def accepted_def)
  next
    case True
    let ?fname = "storage_filename (date_now m) (random_token m) (originalname f)"
    let ?fpath = "uploadDir w @ ''/'' @ ?fname"
    from l Some True have "?fname \<noteq> key" by simp
    then have ne: "?fpath \<noteq> p" by (simp add: p)
    obtain row where row: "select_by_id (recordings w) k = Some row" "filepath row = p"
      using i by (auto simp: intact_def split: option.splits)
    have blob: "files w p = Some bytes" and only: "\<forall>r \<in> set (recordings w). filepath r = p \<longrightarrow> rid r = k"
      using i by (simp_all add: intact_def)
    show ?thesis
      using True Some ne row blob only
      by (auto simp: post_recording_def Let_def accepted_def intact_def select_by_id_append_found)
  qed
qed

lemma intact_delete:
  assumes i: "intact w k p bytes" and l: "j \<noteq> k"
  shows "intact (snd (delete_recording w j)) k p bytes"
proof (cases "db_fails w SelectById \<or> select_by_id (recordings w) j = None")
  case True
  with i show ?thesis by (auto simp: delete_recording_def)
next
  case False
  then obtain rj where rj: "select_by_id (recordings w) j = Some rj" and db: "\<not> db_fails w SelectById"
    by auto
  have only: "\<forall>r \<in> set (recordings w). filepath r = p \<longrightarrow> rid r = k"
    using i by (simp add: intact_def)
  have "rid rj = j" "rj \<in> set (recordings w)"
    using select_by_id_rid [OF rj] by simp_all
  with only l have ne: "filepath rj \<noteq> p" by auto
  have u: "recordings (snd (unlink w (filepath rj))) = recordings w
           \<and> files (snd (unlink w (filepath rj))) p = files w p"
    using ne by (auto simp: unlink_def split: option.splits)
  obtain fsErr w1 where w1: "unlink w (filepath rj) = (fsErr, w1)"
    by (cases "unlink w (filepath rj)") auto
  with u have w1': "recordings w1 = recordings w" "files w1 p = files w p" by simp_all
  have keep: "intact w1 k p bytes"
    using i w1' by (simp add: intact_def)
  have sel: "select_by_id (delete_by_id (recordings w1) j) k = select_by_id (recordings w1) k"
    using l by (simp add: select_by_id_delete_other)
  have sub: "set (delete_by_id (recordings w1) j) \<subseteq> set (recordings w1)"
    by (simp add: delete_by_id_def)
  have del: "intact (w1\<lparr>recordings := delete_by_id (recordings w1) j\<rparr>) k p bytes"
    using keep sub by (auto simp: intact_def sel)
  show ?thesis
    using db rj w1 keep del by (simp add: delete_recording_def)
qed

lemma intact_handle:
  assumes "intact w k p bytes" "p = uploadDir w @ ''/'' @ key" "leaves_alone key k r"
  shows "intact (snd (handle w r)) k p bytes"
proof (cases r)
  case (Post m part)
  with assms show ?thesis using intact_post by simp
next
  case (Get i h)
  with assms show ?thesis by (simp add: get_recording_state)
next
  case (Del j)
  with assms show ?thesis using intact_delete by simp
next
  case List
  with assms show ?thesis by (simp add: list_recordings_state)
qed

lemma intact_run:
  assumes "intact w k p bytes" "p = uploadDir w @ ''/'' @ key" "\<forall>r \<in> set rs. leaves_alone key k r"
  shows "intact (run w rs) k p bytes"
  using assms
proof (induction rs arbitrary: w)
  case Nil
  then show ?case by simp
next
  case (Cons r rs)
  have "leaves_alone key k r"
    using Cons.prems(3) by simp
  with Cons.prems(1,2) have "intact (snd (handle w r)) k p bytes"
    by (rule intact_handle)
  moreover have "p = uploadDir (snd (handle w r)) @ ''/'' @ key"
    using Cons.prems(2) by (simp add: handle_environment)
  ultimately have "intact (run (snd (handle w r)) rs) k p bytes"
    using Cons.prems(3) by (intro Cons.IH) simp_all
  then show ?case by simp
qed

lemma intact_retrieve:
  assumes "intact w k p bytes" "\<not> db_fails w SelectById" "int (length bytes) < 2 ^ 53"
  shows "get_recording w k None =
           (Response 200
              [(''Content-Type'', HStr ''video/webm''),
               (''Content-Length'', HNum (Num (int (length bytes))))]
              (Bytes bytes), w)"
proof -
  obtain row where "select_by_id (recordings w) k = Some row" "files w (filepath row) = Some bytes"
    using assms(1) by (auto simp: intact_def split: option.splits)
  then show ?thesis
    using get_recording_full [of w k row bytes] assms(2,3) by (simp add: stat_size_exact)
qed

lemma first_key:
  "storage_filename 1700000000000 ''k3j9x2'' ''intro.webm'' = ''1700000000000-k3j9x2.webm''"
  "storage_filename 1700000000000 ''k3j9x2'' ''outro.webm'' = ''1700000000000-k3j9x2.webm''"
  "storage_filename 1700000000000 ''k3j9x3'' ''outro.webm'' = ''1700000000000-k3j9x3.webm''"
proof -
  have e: "ext ''intro.webm'' = ''.webm''" "ext ''outro.webm'' = ''.webm''"
    by (simp_all add: ext_def extname_def last_component_def)
  have d: "dec 1700000000000 = ''1700000000000''"
    by (simp add: dec.simps digit_char_def)
  show "storage_filename 1700000000000 ''k3j9x2'' ''intro.webm'' = ''1700000000000-k3j9x2.webm''"
       "storage_filename 1700000000000 ''k3j9x2'' ''outro.webm'' = ''1700000000000-k3j9x2.webm''"
       "storage_filename 1700000000000 ''k3j9x3'' ''outro.webm'' = ''1700000000000-k3j9x3.webm''"
    by (simp_all add: storage_filename_def e d)
qed

lemma first_post:
  "fst (post_recording empty_world first_moment (Some first_upload)) =
     Response 201 []
       (UploadedJson ''Recording uploaded successfully''
          \<lparr>rid = 1, filename = ''intro.webm'', filepath = ''1700000000000-k3j9x2.webm'',
           filesize = 4, createdAt = ''2023-11-14T22:13:20.000Z''\<rparr>)"
  by (simp add: post_recording_def Let_def empty_world_def no_faults_def first_moment_def
        first_upload_def first_key next_rowid_def basename_def last_component_def)

text \<open>
  C3 (full retrieve, round trip). The claim says that for every stored recording a retrieve
  without \<^verbatim>\<open>Range\<close> header returns the originally ingested bytes. After the two uploads that
  got one storage key, the recording with id 1, ingested as \<^verbatim>\<open>AAAA\<close>, is answered with the two
  bytes \<^verbatim>\<open>BB\<close> of the later upload: the later upload replaced the file both rows point to.
\<close>

theorem overwritten_blob_counterexample:
  "fst (handle empty_world (Post first_moment (Some first_upload))) =
     Response 201 []
       (UploadedJson ''Recording uploaded successfully''
          \<lparr>rid = 1, filename = ''intro.webm'', filepath = ''1700000000000-k3j9x2.webm'',
           filesize = 4, createdAt = ''2023-11-14T22:13:20.000Z''\<rparr>)
   \<and> content first_upload = ''AAAA''
   \<and> fst (get_recording collided_world 1 None) =
     Response 200
       [(''Content-Type'', HStr ''video/webm''), (''Content-Length'', HNum (Num 2))]
       (Bytes ''BB'')"
proof -
  have c: "collided_world =
      \<lparr>recordings =
         [\<lparr>rid = 1, filename = ''intro.webm'', filepath = ''/srv/uploads/1700000000000-k3j9x2.webm'',
           filesize = 4, createdAt = ''2023-11-14 22:13:20''\<rparr>,
          \<lparr>rid = 2, filename = ''outro.webm'', filepath = ''/srv/uploads/1700000000000-k3j9x2.webm'',
           filesize = 2, createdAt = ''2023-11-14 22:13:20''\<rparr>],
       sqlite_sequence = 2,
       files = [''/srv/uploads/1700000000000-k3j9x2.webm'' \<mapsto> ''BB''],
       unlink_errno = Map.empty, db_fails = no_faults, uploadDir = ''/srv/uploads''\<rparr>"
    by (simp add: collided_world_def post_recording_def Let_def empty_world_def no_faults_def
          first_moment_def second_moment_def first_upload_def second_upload_def first_key
          next_rowid_def accepted_def)
  have g: "fst (get_recording collided_world 1 None) =
     Response 200
       [(''Content-Type'', HStr ''video/webm''), (''Content-Length'', HNum (Num 2))]
       (Bytes ''BB'')"
    unfolding c
    by (simp add: get_recording_def select_by_id_def no_faults_def stat_size_def to_double_def)
  show ?thesis
    using first_post g by (simp add: first_upload_def)
qed

text \<open>
  C3, as amended. Retrieving a stored recording without a \<^verbatim>\<open>Range\<close> header answers 200 with
  \<^verbatim>\<open>Content-Length\<close> equal to the size of the file on disk and with the whole content of the
  file as body. These are the originally ingested bytes, for every size, 0 included, as long
  as the storage key is shared with no other recording and the recording is not deleted:
  after an accepted upload whose storage path no earlier row has, and after any further
  requests that neither delete the new id nor store an upload under the same key, retrieving
  the id the upload reported returns exactly the uploaded bytes. Sizes are those that
  \<^verbatim>\<open>stat.size\<close> holds exactly (below \<open>2 ^ 53\<close> bytes).
\<close>

theorem retrieve_returns_ingested_bytes:
  assumes db: "\<not> db_fails w SelectById"
  shows "(select_by_id (recordings w) i = Some row \<and> files w (filepath row) = Some bytes
            \<and> int (length bytes) < 2 ^ 53 \<longrightarrow>
          get_recording w i None =
            (Response 200
               [(''Content-Type'', HStr ''video/webm''),
                (''Content-Length'', HNum (Num (int (length bytes))))]
               (Bytes bytes), w))
       \<and> (\<not> db_fails w Insert \<and> accepted f \<and> int (length (content f)) < 2 ^ 53
            \<and> (\<forall>r \<in> set (recordings w).
                  filepath r \<noteq> uploadDir w @ ''/''
                    @ storage_filename (date_now m) (random_token m) (originalname f)) \<longrightarrow>
          (\<exists>view w1.
             post_recording w m (Some f) =
               (Response 201 [] (UploadedJson ''Recording uploaded successfully'' view), w1)
             \<and> (\<forall>rs.
                  (\<forall>r \<in> set rs.
                     leaves_alone
                       (storage_filename (date_now m) (random_token m) (originalname f))
                       (rid view) r) \<longrightarrow>
                  get_recording (run w1 rs) (rid view) None =
                    (Response 200
                       [(''Content-Type'', HStr ''video/webm''),
                        (''Content-Length'', HNum (Num (int (length (content f)))))]
                       (Bytes (content f)), run w1 rs))))"
proof (intro conjI impI)
  assume "select_by_id (recordings w) i = Some row \<and> files w (filepath row) = Some bytes
               \<and> int (length bytes) < 2 ^ 53"
  then show "get_recording w i None =
            (Response 200
               [(''Content-Type'', HStr ''video/webm''),
                (''Content-Length'', HNum (Num (int (length bytes))))]
               (Bytes bytes), w)"
    using db get_recording_full [of w i row bytes] by (simp add: stat_size_exact)
next
  let ?key = "storage_filename (date_now m) (random_token m) (originalname f)"
  assume a: "\<not> db_fails w Insert \<and> accepted f \<and> int (length (content f)) < 2 ^ 53
            \<and> (\<forall>r \<in> set (recordings w). filepath r \<noteq> uploadDir w @ ''/'' @ ?key)"
  define fpath where "fpath = uploadDir w @ ''/'' @ ?key"
  define w0 where "w0 = w\<lparr>files := (files w)(fpath \<mapsto> content f)\<rparr>"
  define new where
    "new = \<lparr>rid = next_rowid w0, filename = originalname f, filepath = fpath,
            filesize = int (length (content f)), createdAt = current_timestamp m\<rparr>"
  define view where
    "view = \<lparr>rid = next_rowid w0, filename = originalname f, filepath = basename fpath,
             filesize = int (length (content f)), createdAt = iso_string m\<rparr>"
  define w1 where "w1 = w0\<lparr>recordings := recordings w0 @ [new], sqlite_sequence := next_rowid w0\<rparr>"
  have post: "post_recording w m (Some f) =
                (Response 201 [] (UploadedJson ''Recording uploaded successfully'' view), w1)"
    using a by (simp add: post_recording_def Let_def accepted_def fpath_def w0_def new_def
          view_def w1_def)
  have fresh: "\<forall>r \<in> set (recordings w0). rid r \<noteq> rid new"
  proof
    fix r
    assume "r \<in> set (recordings w0)"
    then have "rid r < next_rowid w0"
      by (rule next_rowid_fresh)
    then show "rid r \<noteq> rid new"
      by (simp add: new_def)
  qed
  then have "select_by_id (recordings w0 @ [new]) (rid new) = Some new"
    by (rule select_by_id_appended)
  then have row: "select_by_id (recordings w1) (rid view) = Some new"
    by (simp add: w1_def view_def new_def)
  have only: "\<forall>r \<in> set (recordings w1). filepath r = fpath \<longrightarrow> rid r = rid view"
    using a by (auto simp: w1_def w0_def fpath_def new_def view_def)
  have start: "intact w1 (rid view) fpath (content f)"
    using row only by (simp add: intact_def) (simp add: w1_def w0_def new_def)
  have dir: "fpath = uploadDir w1 @ ''/'' @ ?key"
    by (simp add: fpath_def w1_def w0_def)
  have dbs: "\<not> db_fails w1 SelectById"
    using db by (simp add: w1_def w0_def)
  have later: "get_recording (run w1 rs) (rid view) None =
                    (Response 200
                       [(''Content-Type'', HStr ''video/webm''),
                        (''Content-Length'', HNum (Num (int (length (content f)))))]
                       (Bytes (content f)), run w1 rs)"
    if l: "\<forall>r \<in> set rs. leaves_alone ?key (rid view) r" for rs
  proof -
    have "intact (run w1 rs) (rid view) fpath (content f)"
      using start dir l by (rule intact_run)
    moreover have "\<not> db_fails (run w1 rs) SelectById"
      using dbs by (simp add: run_environment)
    ultimately show ?thesis
      using a by (intro intact_retrieve) simp_all
  qed
  from post later show "\<exists>view w1.
             post_recording w m (Some f) =
               (Response 201 [] (UploadedJson ''Recording uploaded successfully'' view), w1)
             \<and> (\<forall>rs.
                  (\<forall>r \<in> set rs. leaves_alone ?key (rid view) r) \<longrightarrow>
                  get_recording (run w1 rs) (rid view) None =
                    (Response 200
                       [(''Content-Type'', HStr ''video/webm''),
                        (''Content-Length'', HNum (Num (int (length (content f)))))]
                       (Bytes (content f)), run w1 rs))"
    by blast
qed


theorem retrieve_returns_ingested_bytes_witness:
  "get_recording ten_world 1 None =
     (Response 200
        [(''Content-Type'', HStr ''video/webm''), (''Content-Length'', HNum (Num 10))]
        (Bytes ''0123456789''), ten_world)
   \<and> fst (get_recording
          (run (snd (post_recording empty_world first_moment (Some first_upload)))
             [Post later_moment (Some second_upload), Del 2, List,
              Get 1 (Some ''bytes=0-1''), Post first_moment None])
          1 None) =
     Response 200
       [(''Content-Type'', HStr ''video/webm''), (''Content-Length'', HNum (Num 4))]
       (Bytes ''AAAA'')
   \<and> (\<exists>view w1.
         post_recording empty_world first_moment (Some empty_upload) =
           (Response 201 [] (UploadedJson ''Recording uploaded successfully'' view), w1)
         \<and> get_recording (run w1 []) (rid view) None =
           (Response 200
              [(''Content-Type'', HStr ''video/webm''), (''Content-Length'', HNum (Num 0))]
              (Bytes []), run w1 []))"
proof -
  have db: "\<not> db_fails ten_world SelectById" "\<not> db_fails empty_world SelectById"
    by (rule ten_world_db, rule empty_world_db)
  have 1: "get_recording ten_world 1 None =
     (Response 200
        [(''Content-Type'', HStr ''video/webm''), (''Content-Length'', HNum (Num 10))]
        (Bytes ''0123456789''), ten_world)"
    using retrieve_returns_ingested_bytes [OF db(1), of 1 ten_row "''0123456789''" first_upload first_moment]
    by (simp add: ten_world_row ten_world_blob)
  let ?rs = "[Post later_moment (Some second_upload), Del 2, List,
              Get 1 (Some ''bytes=0-1''), Post first_moment None]"
  have hyp: "\<not> db_fails empty_world Insert \<and> accepted first_upload
             \<and> int (length (content first_upload)) < 2 ^ 53
             \<and> (\<forall>r \<in> set (recordings empty_world).
                  filepath r \<noteq> uploadDir empty_world @ ''/''
                    @ storage_filename (date_now first_moment) (random_token first_moment)
                        (originalname first_upload))"
    by (simp add: empty_world_db accepted_def first_upload_def) (simp add: empty_world_def)
  obtain view w1 where
    post: "post_recording empty_world first_moment (Some first_upload) =
             (Response 201 [] (UploadedJson ''Recording uploaded successfully'' view), w1)"
    and later: "\<And>rs. (\<forall>r \<in> set rs.
                  leaves_alone
                    (storage_filename (date_now first_moment) (random_token first_moment)
                       (originalname first_upload)) (rid view) r) \<Longrightarrow>
               get_recording (run w1 rs) (rid view) None =
                 (Response 200
                    [(''Content-Type'', HStr ''video/webm''),
                     (''Content-Length'', HNum (Num (int (length (content first_upload)))))]
                    (Bytes (content first_upload)), run w1 rs)"
    using retrieve_returns_ingested_bytes [OF db(2), of 1 ten_row "''0123456789''" first_upload first_moment]
          hyp
    by blast
  have v: "rid view = 1"
    using post first_post by simp
  have w: "w1 = snd (post_recording empty_world first_moment (Some first_upload))"
    using post by simp
  have "\<forall>r \<in> set ?rs.
          leaves_alone
            (storage_filename (date_now first_moment) (random_token first_moment)
               (originalname first_upload)) (rid view) r"
    by (simp add: v first_moment_def later_moment_def first_upload_def second_upload_def
          first_key)
  then have 2: "fst (get_recording (run w1 ?rs) 1 None) =
     Response 200
       [(''Content-Type'', HStr ''video/webm''), (''Content-Length'', HNum (Num 4))]
       (Bytes ''AAAA'')"
    using later [of ?rs] by (simp add: v first_upload_def)
  have hyp0: "\<not> db_fails empty_world Insert \<and> accepted empty_upload
             \<and> int (length (content empty_upload)) < 2 ^ 53
             \<and> (\<forall>r \<in> set (recordings empty_world).
                  filepath r \<noteq> uploadDir empty_world @ ''/''
                    @ storage_filename (date_now first_moment) (random_token first_moment)
                        (originalname empty_upload))"
    by (simp add: empty_world_db accepted_def empty_upload_def) (simp add: empty_world_def)
  obtain view0 w0 where
    post0: "post_recording empty_world first_moment (Some empty_upload) =
             (Response 201 [] (UploadedJson ''Recording uploaded successfully'' view0), w0)"
    and later0: "\<And>rs. (\<forall>r \<in> set rs.
                  leaves_alone
                    (storage_filename (date_now first_moment) (random_token first_moment)
                       (originalname empty_upload)) (rid view0) r) \<Longrightarrow>
               get_recording (run w0 rs) (rid view0) None =
                 (Response 200
                    [(''Content-Type'', HStr ''video/webm''),
                     (''Content-Length'', HNum (Num (int (length (content empty_upload)))))]
                    (Bytes (content empty_upload)), run w0 rs)"
    using retrieve_returns_ingested_bytes [OF db(2), of 1 ten_row "''0123456789''" empty_upload first_moment]
          hyp0
    by blast
  have "get_recording (run w0 []) (rid view0) None =
           (Response 200
              [(''Content-Type'', HStr ''video/webm''), (''Content-Length'', HNum (Num 0))]
              (Bytes []), run w0 [])"
    using later0 [of "[]"] by (simp add: empty_upload_def)
  with post0 have 3: "\<exists>view w1.
         post_recording empty_world first_moment (Some empty_upload) =
           (Response 201 [] (UploadedJson ''Recording uploaded successfully'' view), w1)
         \<and> get_recording (run w1 []) (rid view) None =
           (Response 200
              [(''Content-Type'', HStr ''video/webm''), (''Content-Length'', HNum (Num 0))]
              (Bytes []), run w1 [])"
    by blast
  from 1 2 3 show ?thesis
    unfolding w by blast
qed

subsection \<open>Facts about the listing\<close>

lemma last_component_no_slash: "CHR ''/'' \<notin> set (last_component p)"
  by (auto simp: last_component_def dest: set_takeWhileD)

lemma sanitize_fields:
  "rid (sanitize r) = rid r" "filepath (sanitize r) = basename (filepath r)"
  "filename (sanitize r) = filename r" "filesize (sanitize r) = filesize r"
  "createdAt (sanitize r) = createdAt r"
  by (simp_all add: sanitize_def)

lemma select_all_descending: "sorted_wrt (\<lambda>a b. rid b \<le> rid a) (select_all rows)"
proof -
  have "sorted (map rid (sort_key rid rows))"
    by (rule sorted_sort_key)
  then have "sorted_wrt (\<lambda>a b. rid a \<le> rid b) (sort_key rid rows)"
    by (simp add: sorted_map)
  then show ?thesis
    by (simp add: select_all_def sorted_wrt_rev)
qed

lemma select_all_mset: "mset (select_all rows) = mset rows"
  by (simp add: select_all_def)

text \<open>
  C9 (listing). When the \<^verbatim>\<open>SELECT\<close> succeeds, the list operation answers with all rows of the
  index, each once, ordered by descending id; in each of them the field \<^verbatim>\<open>filepath\<close> is the
  base name of the stored path and nothing else of the row is changed, and no \<^verbatim>\<open>filepath\<close> of
  the answer contains a path separator.
\<close>

theorem list_newest_first_redacted:
  assumes db: "\<not> db_fails w SelectAll"
  shows "\<exists>out. list_recordings w = (Response 200 [] (RowsJson out), w)
           \<and> sorted_wrt (\<lambda>a b. rid b \<le> rid a) out
           \<and> mset out =
               image_mset (\<lambda>r. r\<lparr>filepath := basename (filepath r)\<rparr>) (mset (recordings w))
           \<and> (\<forall>v \<in> set out. CHR ''/'' \<notin> set (filepath v))"
proof -
  let ?out = "map sanitize (select_all (recordings w))"
  have 1: "list_recordings w = (Response 200 [] (RowsJson ?out), w)"
    using db by (simp add: list_recordings_def)
  have 2: "sorted_wrt (\<lambda>a b. rid b \<le> rid a) ?out"
    using select_all_descending [of "recordings w"]
    by (simp add: sorted_wrt_map sanitize_fields)
  have "mset ?out = image_mset sanitize (mset (select_all (recordings w)))"
    by simp
  then have 3: "mset ?out =
      image_mset (\<lambda>r. r\<lparr>filepath := basename (filepath r)\<rparr>) (mset (recordings w))"
    by (simp add: select_all_mset sanitize_def [abs_def])
  have 4: "\<forall>v \<in> set ?out. CHR ''/'' \<notin> set (filepath v)"
    by (auto simp: sanitize_fields basename_def last_component_no_slash)
  from 1 2 3 4 show ?thesis by blast
qed

theorem list_newest_first_redacted_witness:
  "\<exists>out. list_recordings pair_world = (Response 200 [] (RowsJson out), pair_world)
           \<and> sorted_wrt (\<lambda>a b. rid b \<le> rid a) out
           \<and> mset out = {#ten_row\<lparr>filepath := ''17-k3.webm''\<rparr>,
                           second_row\<lparr>filepath := ''18-z9.webm''\<rparr>#}
           \<and> map rid out = [2, 1]"
proof -
  have b: "basename ''/srv/uploads/17-k3.webm'' = ''17-k3.webm''"
          "basename ''/srv/uploads/18-z9.webm'' = ''18-z9.webm''"
    by (simp_all add: basename_def last_component_def)
  have db: "\<not> db_fails pair_world SelectAll"
    by (simp add: pair_world_def no_faults_def)
  have l: "list_recordings pair_world =
             (Response 200 []
                (RowsJson [second_row\<lparr>filepath := ''18-z9.webm''\<rparr>,
                           ten_row\<lparr>filepath := ''17-k3.webm''\<rparr>]), pair_world)"
    by (simp add: list_recordings_def pair_world_def no_faults_def select_all_def
          sanitize_def ten_row_def second_row_def b)
  show ?thesis
    using list_newest_first_redacted [OF db]
    by (simp add: l) (simp add: pair_world_def ten_row_def second_row_def b)
qed

subsection \<open>Facts about the stored file names\<close>

lemma cut_unique:
  assumes "d \<notin> set a" "d \<notin> set b" "a @ d # x = b @ d # y"
  shows "a = b \<and> x = y"
proof -
  have "takeWhile (\<lambda>c. c \<noteq> d) (a @ d # x) = a" "takeWhile (\<lambda>c. c \<noteq> d) (b @ d # y) = b"
    using assms(1,2) by (auto simp: takeWhile_tail)
  with assms(3) have "a = b" by simp
  with assms(3) show ?thesis by simp
qed

lemma dec_inject:
  assumes "0 \<le> m" "0 \<le> n" "dec m = dec n"
  shows "m = n"
proof -
  have "digits_val (dec m) = digits_val (dec n)"
    using assms(3) by (rule arg_cong)
  then show ?thesis
    by (simp only: digits_val_dec [OF assms(1)] digits_val_dec [OF assms(2)])
qed

lemma ext_dot: "\<exists>r. ext original = CHR ''.'' # r"
  by (simp add: ext_def extname_def Let_def)

lemma is_base36_not_dot: "is_base36 c \<Longrightarrow> c \<noteq> CHR ''.''"
  by (auto simp: is_base36_def is_digit_def)

text \<open>
  C5 (storage keys). The claim says that two distinct uploads never get the same storage key,
  also when they read the same millisecond from the clock. The key is made of the clock, the
  random token and the extension only, so two different uploads in the same millisecond
  whose random tokens come out the same get one key, and both rows point to one file.
\<close>

theorem storage_key_collision:
  "first_upload \<noteq> second_upload
   \<and> storage_filename (date_now first_moment) (random_token first_moment) (originalname first_upload)
     = storage_filename (date_now second_moment) (random_token second_moment) (originalname second_upload)
   \<and> map filepath
        (recordings (snd (post_recording (snd (post_recording empty_world first_moment (Some first_upload)))
                            second_moment (Some second_upload))))
     = [''/srv/uploads/1700000000000-k3j9x2.webm'', ''/srv/uploads/1700000000000-k3j9x2.webm'']"
proof -
  have e: "ext ''intro.webm'' = ''.webm''" "ext ''outro.webm'' = ''.webm''"
    by (simp_all add: ext_def extname_def last_component_def)
  have d: "dec 1700000000000 = ''1700000000000''"
    by (simp add: dec.simps digit_char_def)
  have n: "storage_filename 1700000000000 ''k3j9x2'' ''intro.webm'' = ''1700000000000-k3j9x2.webm''"
          "storage_filename 1700000000000 ''k3j9x2'' ''outro.webm'' = ''1700000000000-k3j9x2.webm''"
    by (simp_all add: storage_filename_def e d)
  show ?thesis
    by (simp add: post_recording_def Let_def empty_world_def no_faults_def first_moment_def
          second_moment_def first_upload_def second_upload_def n)
qed

text \<open>
  C5, as amended. With the clock not before the epoch and the tokens printed in base 36, two
  uploads get the same storage key exactly when they read the same millisecond, draw the same
  random token and have the same extension: keys differ as soon as the clock readings or the
  tokens differ.
\<close>

theorem storage_key_injective:
  assumes clock: "0 \<le> t1" "0 \<le> t2"
    and tokens: "\<forall>c \<in> set k1. is_base36 c" "\<forall>c \<in> set k2. is_base36 c"
  shows "storage_filename t1 k1 o1 = storage_filename t2 k2 o2
           \<longleftrightarrow> t1 = t2 \<and> k1 = k2 \<and> ext o1 = ext o2"
proof
  assume eq: "storage_filename t1 k1 o1 = storage_filename t2 k2 o2"
  obtain r1 r2 where e: "ext o1 = CHR ''.'' # r1" "ext o2 = CHR ''.'' # r2"
    using ext_dot by blast
  from eq clock have "dec t1 @ CHR ''-'' # (k1 @ ext o1) = dec t2 @ CHR ''-'' # (k2 @ ext o2)"
    by (simp add: storage_filename_def)
  then have 1: "dec t1 = dec t2 \<and> k1 @ ext o1 = k2 @ ext o2"
    using clock by (intro cut_unique) (simp_all add: dash_notin_dec)
  then have t: "t1 = t2"
    using clock dec_inject by blast
  have "CHR ''.'' \<notin> set k1" "CHR ''.'' \<notin> set k2"
    using tokens is_base36_not_dot by blast+
  moreover from 1 e have "k1 @ CHR ''.'' # r1 = k2 @ CHR ''.'' # r2"
    by simp
  ultimately have "k1 = k2 \<and> r1 = r2"
    by (rule cut_unique)
  with t e show "t1 = t2 \<and> k1 = k2 \<and> ext o1 = ext o2"
    by simp
next
  assume "t1 = t2 \<and> k1 = k2 \<and> ext o1 = ext o2"
  then show "storage_filename t1 k1 o1 = storage_filename t2 k2 o2"
    by (simp add: storage_filename_def)
qed

theorem storage_key_injective_witness:
  "storage_filename 1700000000000 ''k3j9x2'' ''intro.webm''
     \<noteq> storage_filename 1700000000000 ''k3j9x3'' ''outro.webm''
   \<and> storage_filename 1700000000000 ''k3j9x2'' ''intro.webm''
     \<noteq> storage_filename 1700000000001 ''k3j9x2'' ''intro.webm''"
  using storage_key_injective [of 1700000000000 1700000000000 "''k3j9x2''" "''k3j9x3''" "''intro.webm''" "''outro.webm''"]
        storage_key_injective [of 1700000000000 1700000000001 "''k3j9x2''" "''k3j9x2''" "''intro.webm''" "''intro.webm''"]
  by (simp add: is_base36_def is_digit_def)

end
